theory Spec2Isabelle
  imports Main "HOL-Library.Sublist"
begin

section \<open>JavaScript values shared by the modules\<close>

text \<open>
  Strings are lists of ASCII code units. An exception thrown by the HTTP client is an
  \<open>Error\<close> object, identified by its message; an awaited call that may reject returns
  \<open>js_error + 'a\<close>, with \<open>Inl\<close> for the rejection.
\<close>

datatype js_error = Error string

text \<open>\<open>String(e)\<close> for an \<open>Error\<close>: the name alone when the message is empty.\<close>

fun String_of :: "js_error \<Rightarrow> string" where
  "String_of (Error msg) = (if msg = [] then ''Error'' else ''Error: '' @ msg)"

text \<open>\<open>s.includes(t)\<close>: \<open>t\<close> occurs in \<open>s\<close> as a contiguous run, case-sensitively.\<close>

definition str_includes :: "string \<Rightarrow> string \<Rightarrow> bool" where
  "str_includes s t = sublist t s"

text \<open>Truthiness of an optional string: \<open>undefined\<close> and the empty string are falsy.\<close>

fun truthy :: "string option \<Rightarrow> bool" where
  "truthy None = False"
| "truthy (Some s) = (s \<noteq> [])"

section \<open>api/client.ts: executor normalization\<close>

text \<open>
  \<open>executor.trim().replace(/-/g, '_').toUpperCase()\<close>, as written in
  \<open>buildExecutorProfile\<close> and \<open>startWorkspaceSession\<close>. On ASCII, \<open>trim\<close> strips
  tab, line feed, vertical tab, form feed, carriage return and space from both ends,
  and \<open>toUpperCase\<close> moves \<open>a..z\<close> to \<open>A..Z\<close>.
\<close>

definition isWhiteSpace :: "char \<Rightarrow> bool" where
  "isWhiteSpace c = (of_char c \<in> {9, 10, 11, 12, 13, 32 :: nat})"

definition trim :: "string \<Rightarrow> string" where
  "trim s = rev (dropWhile isWhiteSpace (rev (dropWhile isWhiteSpace s)))"

definition isLowerAscii :: "char \<Rightarrow> bool" where
  "isLowerAscii c = (97 \<le> (of_char c :: nat) \<and> (of_char c :: nat) \<le> 122)"

definition toUpperCaseChar :: "char \<Rightarrow> char" where
  "toUpperCaseChar c = (if isLowerAscii c then char_of ((of_char c :: nat) - 32) else c)"

definition toUpperCase :: "string \<Rightarrow> string" where
  "toUpperCase s = map toUpperCaseChar s"

definition replaceHyphen :: "char \<Rightarrow> char" where
  "replaceHyphen c = (if c = CHR ''-'' then CHR ''_'' else c)"

definition replaceHyphens :: "string \<Rightarrow> string" where
  "replaceHyphens s = map replaceHyphen s"


definition normalizeExecutor :: "string \<Rightarrow> string" where
  "normalizeExecutor executor = toUpperCase (replaceHyphens (trim executor))"

record ExecutorProfileId =
  executor :: string
  variant :: "string option"

text \<open>
  \<open>variant ? { executor: normalized, variant } : { executor: normalized }\<close>: a falsy
  variant (absent or empty) is dropped.
\<close>

definition buildExecutorProfile :: "string \<Rightarrow> string option \<Rightarrow> ExecutorProfileId" where
  "buildExecutorProfile exec var =
     \<lparr>executor = normalizeExecutor exec, variant = (if truthy var then var else None)\<rparr>"

section \<open>api/client.ts: listTasks\<close>

record Task =
  task_id :: string
  task_title :: string
  task_status :: string

text \<open>
  \<open>xs.slice(0, e)\<close> for an integer \<open>e\<close>: a negative end counts from the end of the
  array, and the end is clamped to the array.
\<close>

definition slice0 :: "'a list \<Rightarrow> int \<Rightarrow> 'a list" where
  "slice0 xs e = (if e < 0 then take (nat (int (length xs) + e)) xs else take (nat e) xs)"

text \<open>
  \<open>listTasks(status?, limit?)\<close>. The first argument is what the Gateway answered to
  \<open>GET /api/tasks?project_id=...\<close>; a rejected request rejects the call. Both
  conditionals test truthiness: an absent or empty status does not filter, an absent
  or zero limit does not cut.
\<close>

definition listTasks :: "js_error + Task list \<Rightarrow> string option \<Rightarrow> int option \<Rightarrow> js_error + Task list" where
  "listTasks response status limit =
     (case response of
        Inl e \<Rightarrow> Inl e
      | Inr tasks \<Rightarrow>
          (let filtered = (if truthy status then filter (\<lambda>t. Some (task_status t) = status) tasks
                           else tasks)
           in Inr (case limit of
                     None \<Rightarrow> filtered
                   | Some l \<Rightarrow> if l \<noteq> 0 then slice0 filtered l else filtered)))"

section \<open>tasks.ts: status mapping\<close>

text \<open>
  The declared type \<open>ExecutionProcessStatus\<close> is the union of four string literals.
  The value itself arrives as a string in the Gateway's JSON; \<open>mapStatus\<close> switches
  on it and has a default branch.
\<close>

definition ExecutionProcessStatus :: "string set" where
  "ExecutionProcessStatus = {''running'', ''completed'', ''failed'', ''killed''}"

definition mapStatus :: "string \<Rightarrow> string" where
  "mapStatus vibeStatus =
     (if vibeStatus = ''running'' then ''working''
      else if vibeStatus = ''completed'' then ''completed''
      else if vibeStatus = ''failed'' then ''failed''
      else if vibeStatus = ''killed'' then ''cancelled''
      else ''working'')"

section \<open>resources.ts: URI parsing\<close>

datatype ParsedUri =
    TasksUri
  | TaskUri string
  | SessionUri string
  | QueueUri string
  | ContextUri

text \<open>The character class \<open>[0-9a-f-]\<close> under the \<open>i\<close> flag, and \<open>[0-9a-f-]+\<close>.\<close>

definition isIdChar :: "char \<Rightarrow> bool" where
  "isIdChar c = (c \<in> set ''0123456789abcdefABCDEF-'')"

definition isId :: "string \<Rightarrow> bool" where
  "isId s = (s \<noteq> [] \<and> list_all isIdChar s)"

text \<open>
  A literal of the pattern anchored at the start of the input, compared without regard
  to ASCII case (the \<open>i\<close> flag covers the literal too); the result is the rest of
  the input.
\<close>

definition matchLiteral :: "string \<Rightarrow> string \<Rightarrow> string option" where
  "matchLiteral lit s =
     (if length lit \<le> length s \<and> toUpperCase (take (length lit) s) = toUpperCase lit
      then Some (drop (length lit) s) else None)"

text \<open>\<open>/^vibe:\/\/tasks\/([0-9a-f-]+)$/i\<close> and \<open>/^vibe:\/\/sessions\/([0-9a-f-]+)$/i\<close>.\<close>

definition matchIdAfter :: "string \<Rightarrow> string \<Rightarrow> string option" where
  "matchIdAfter lit uri =
     (case matchLiteral lit uri of
        None \<Rightarrow> None
      | Some r \<Rightarrow> if isId r then Some r else None)"

text \<open>
  \<open>/^vibe:\/\/sessions\/([0-9a-f-]+)\/queue$/i\<close>: the group is the longest run of
  class characters (the class has no slash), and \<open>/queue\<close> must be all that follows.
\<close>

definition matchQueue :: "string \<Rightarrow> string option" where
  "matchQueue uri =
     (case matchLiteral ''vibe://sessions/'' uri of
        None \<Rightarrow> None
      | Some r \<Rightarrow>
          (let g = takeWhile isIdChar r; rest = dropWhile isIdChar r
           in if g \<noteq> [] \<and> toUpperCase rest = toUpperCase ''/queue'' then Some g else None))"

definition parseResourceUri :: "string \<Rightarrow> ParsedUri option" where
  "parseResourceUri uri =
     (if uri = ''vibe://tasks'' then Some TasksUri
      else if uri = ''vibe://context'' then Some ContextUri
      else case matchIdAfter ''vibe://tasks/'' uri of
        Some taskId \<Rightarrow> Some (TaskUri taskId)
      | None \<Rightarrow>
          (case matchQueue uri of
             Some sessionId \<Rightarrow> Some (QueueUri sessionId)
           | None \<Rightarrow>
               (case matchIdAfter ''vibe://sessions/'' uri of
                  Some sessionId \<Rightarrow> Some (SessionUri sessionId)
                | None \<Rightarrow> None)))"

section \<open>resources.ts: fetching a resource\<close>

text \<open>
  What the Gateway answers to each read of the client during one poll tick. A fetched
  value is represented by its \<open>JSON.stringify\<close> text; \<open>Inl\<close> is a rejected call.
\<close>

record Gateway =
  gw_listTasks :: "js_error + string"
  gw_getWorkspaceContext :: "string \<Rightarrow> js_error + string"
  gw_getTask :: "string \<Rightarrow> js_error + string"
  gw_getSession :: "string \<Rightarrow> js_error + string"
  gw_getQueueStatus :: "string \<Rightarrow> js_error + string"

record Config =
  workspaceId :: "string option"
  resourcePollIntervalMs :: nat

text \<open>The serialization of the object \<open>{ error: 'VIBE_WORKSPACE_ID not set' }\<close>.\<close>

definition workspaceIdNotSet :: string where
  "workspaceIdNotSet =
     ''{'' @ [CHR 0x22] @ ''error'' @ [CHR 0x22] @ '':'' @ [CHR 0x22]
       @ ''VIBE_WORKSPACE_ID not set'' @ [CHR 0x22] @ ''}''"

fun fetchResourceData :: "Config \<Rightarrow> Gateway \<Rightarrow> ParsedUri \<Rightarrow> js_error + string" where
  "fetchResourceData cfg gw TasksUri = gw_listTasks gw"
| "fetchResourceData cfg gw ContextUri =
     (case workspaceId cfg of
        None \<Rightarrow> Inr workspaceIdNotSet
      | Some w \<Rightarrow> if w = [] then Inr workspaceIdNotSet else gw_getWorkspaceContext gw w)"
| "fetchResourceData cfg gw (TaskUri taskId) = gw_getTask gw taskId"
| "fetchResourceData cfg gw (SessionUri sessionId) = gw_getSession gw sessionId"
| "fetchResourceData cfg gw (QueueUri sessionId) = gw_getQueueStatus gw sessionId"

section \<open>resources.ts: the subscription manager\<close>

text \<open>
  \<open>subscriptions\<close> is a JavaScript \<open>Set\<close>: a duplicate-free list in insertion order.
  \<open>pollTimer\<close> holds the interval of the running timer, or \<open>None\<close> for \<open>null\<close>.
\<close>

record SubscriptionManager =
  subscriptions :: "string list"
  lastHashes :: "string \<rightharpoonup> string"
  pollTimer :: "nat option"
  pollIntervalMs :: nat

definition newSubscriptionManager :: "Config \<Rightarrow> SubscriptionManager" where
  "newSubscriptionManager cfg =
     \<lparr>subscriptions = [], lastHashes = Map.empty, pollTimer = None,
      pollIntervalMs = resourcePollIntervalMs cfg\<rparr>"

definition set_add :: "'a \<Rightarrow> 'a list \<Rightarrow> 'a list" where
  "set_add x xs = (if x \<in> set xs then xs else xs @ [x])"

definition set_delete :: "'a \<Rightarrow> 'a list \<Rightarrow> 'a list" where
  "set_delete x xs = filter (\<lambda>y. y \<noteq> x) xs"

definition startPolling :: "SubscriptionManager \<Rightarrow> SubscriptionManager" where
  "startPolling m = m\<lparr>pollTimer := Some (pollIntervalMs m)\<rparr>"

definition stopPolling :: "SubscriptionManager \<Rightarrow> SubscriptionManager" where
  "stopPolling m = (if pollTimer m \<noteq> None then m\<lparr>pollTimer := None\<rparr> else m)"

definition subscribe :: "string \<Rightarrow> SubscriptionManager \<Rightarrow> SubscriptionManager" where
  "subscribe uri m =
     (let m1 = m\<lparr>subscriptions := set_add uri (subscriptions m)\<rparr>
      in if pollTimer m1 = None then startPolling m1 else m1)"

definition unsubscribe :: "string \<Rightarrow> SubscriptionManager \<Rightarrow> SubscriptionManager" where
  "unsubscribe uri m =
     (let m1 = m\<lparr>subscriptions := set_delete uri (subscriptions m),
                 lastHashes := (lastHashes m)(uri := None)\<rparr>
      in if length (subscriptions m1) = 0 then stopPolling m1 else m1)"

text \<open>
  The surroundings of one poll tick: the Gateway's answers, and for each URI whether
  \<open>server.sendResourceUpdated({ uri })\<close> resolves (\<open>True\<close>) or rejects.
\<close>

record tick_env =
  gateway :: Gateway
  sendResourceUpdated :: "string \<Rightarrow> bool"

text \<open>
  The body of the loop of \<open>checkForChanges\<close> for one URI, on the fingerprint table and
  the log of \<open>sendResourceUpdated\<close> calls (URI, resolved). The digest
  \<open>createHash('sha256').update(json).digest('hex')\<close> is the parameter \<open>hexdigest\<close>.
  \<open>lastHash && lastHash !== hash\<close> tests truthiness first. Every exception inside
  \<open>try\<close>, the rejected notification included, leaves the table as it is.
\<close>

definition pollUri ::
  "(string \<Rightarrow> string) \<Rightarrow> Config \<Rightarrow> tick_env \<Rightarrow> string
   \<Rightarrow> (string \<rightharpoonup> string) \<times> (string \<times> bool) list
   \<Rightarrow> (string \<rightharpoonup> string) \<times> (string \<times> bool) list" where
  "pollUri hexdigest cfg env uri st =
     (case parseResourceUri uri of
        None \<Rightarrow> st
      | Some parsed \<Rightarrow>
          (case fetchResourceData cfg (gateway env) parsed of
             Inl e \<Rightarrow> st
           | Inr json \<Rightarrow>
               (let hash = hexdigest json; lastHash = fst st uri
                in if truthy lastHash \<and> lastHash \<noteq> Some hash
                   then (if sendResourceUpdated env uri
                         then ((fst st)(uri \<mapsto> hash), snd st @ [(uri, True)])
                         else (fst st, snd st @ [(uri, False)]))
                   else ((fst st)(uri \<mapsto> hash), snd st))))"

fun pollAll ::
  "(string \<Rightarrow> string) \<Rightarrow> Config \<Rightarrow> tick_env \<Rightarrow> string list
   \<Rightarrow> (string \<rightharpoonup> string) \<times> (string \<times> bool) list
   \<Rightarrow> (string \<rightharpoonup> string) \<times> (string \<times> bool) list" where
  "pollAll hexdigest cfg env [] st = st"
| "pollAll hexdigest cfg env (uri # uris) st = pollAll hexdigest cfg env uris (pollUri hexdigest cfg env uri st)"

definition checkForChanges ::
  "(string \<Rightarrow> string) \<Rightarrow> Config \<Rightarrow> tick_env \<Rightarrow> SubscriptionManager
   \<Rightarrow> SubscriptionManager \<times> (string \<times> bool) list" where
  "checkForChanges hexdigest cfg env m =
     (let st = pollAll hexdigest cfg env (subscriptions m) (lastHashes m, [])
      in (m\<lparr>lastHashes := fst st\<rparr>, snd st))"

text \<open>
  Histories of the manager: requests of the protocol, the shutdown hook and timer
  ticks, run in order from a state; the second component collects the notification
  calls of all ticks. The timer calls \<open>checkForChanges\<close> only while it is set, and a
  tick runs to its end before the next event: requests arriving between the awaits of
  a running tick are not modelled.
\<close>

datatype event =
    Subscribe string
  | Unsubscribe string
  | StopPolling
  | Tick tick_env

fun step ::
  "(string \<Rightarrow> string) \<Rightarrow> Config \<Rightarrow> event \<Rightarrow> SubscriptionManager
   \<Rightarrow> SubscriptionManager \<times> (string \<times> bool) list" where
  "step hexdigest cfg (Subscribe uri) m = (subscribe uri m, [])"
| "step hexdigest cfg (Unsubscribe uri) m = (unsubscribe uri m, [])"
| "step hexdigest cfg StopPolling m = (stopPolling m, [])"
| "step hexdigest cfg (Tick env) m =
     (if pollTimer m = None then (m, []) else checkForChanges hexdigest cfg env m)"

fun run ::
  "(string \<Rightarrow> string) \<Rightarrow> Config \<Rightarrow> event list \<Rightarrow> SubscriptionManager
   \<Rightarrow> SubscriptionManager \<times> (string \<times> bool) list" where
  "run hexdigest cfg [] m = (m, [])"
| "run hexdigest cfg (e # es) m =
     (let (m1, log1) = step hexdigest cfg e m; (m2, log2) = run hexdigest cfg es m1
      in (m2, log1 @ log2))"

section \<open>resources.ts: histories, invariant and concrete instances\<close>

text \<open>A stand-in digest and Gateway for concrete runs: the digest is injective and never empty.\<close>

definition demo_digest :: "string \<Rightarrow> string" where
  "demo_digest s = CHR ''#'' # s"

definition demo_gateway :: "js_error + string \<Rightarrow> Gateway" where
  "demo_gateway tasks =
     \<lparr>gw_listTasks = tasks, gw_getWorkspaceContext = (\<lambda>_. Inl (Error ''down'')),
      gw_getTask = (\<lambda>_. Inl (Error ''down'')), gw_getSession = (\<lambda>_. Inl (Error ''down'')),
      gw_getQueueStatus = (\<lambda>_. Inl (Error ''down''))\<rparr>"

definition demo_config :: Config where
  "demo_config = \<lparr>workspaceId = None, resourcePollIntervalMs = 10000\<rparr>"

text \<open>The state reached from a new manager by a history, and the notification calls about one URI.\<close>

definition reached :: "(string \<Rightarrow> string) \<Rightarrow> Config \<Rightarrow> event list \<Rightarrow> SubscriptionManager" where
  "reached hexdigest cfg es = fst (run hexdigest cfg es (newSubscriptionManager cfg))"

definition on_uri :: "string \<Rightarrow> (string \<times> bool) list \<Rightarrow> (string \<times> bool) list" where
  "on_uri U log = filter (\<lambda>e. fst e = U) log"


definition demo_env :: "js_error + string \<Rightarrow> bool \<Rightarrow> tick_env" where
  "demo_env tasks delivered =
     \<lparr>gateway = demo_gateway tasks, sendResourceUpdated = (\<lambda>_. delivered)\<rparr>"


definition demo_two :: SubscriptionManager where
  "demo_two = reached demo_digest demo_config
     [Subscribe ''vibe://tasks/ab'', Subscribe ''vibe://tasks'', Tick (demo_env (Inr ''[]'') True)]"

text \<open>A Gateway task list for concrete runs.\<close>

definition demo_tasks :: "Task list" where
  "demo_tasks =
     [\<lparr>task_id = ''1'', task_title = ''a'', task_status = ''todo''\<rparr>,
      \<lparr>task_id = ''2'', task_title = ''b'', task_status = ''done''\<rparr>,
      \<lparr>task_id = ''3'', task_title = ''c'', task_status = ''todo''\<rparr>,
      \<lparr>task_id = ''4'', task_title = ''d'', task_status = ''todo''\<rparr>]"

section \<open>tasks.ts: the execution tracker\<close>

record ExecutionProcess =
  proc_id :: string
  proc_status :: string
  exit_code :: "int option"

definition POLL_INTERVAL_MS :: nat where
  "POLL_INTERVAL_MS = 5000"

definition MAX_POLL_ITERATIONS :: nat where
  "MAX_POLL_ITERATIONS = 120"

text \<open>
  What the poller does to the outside, in order: the sleep, the two Gateway reads, the
  progress notification (progress, total, Gateway status, elapsed seconds) and the two
  calls on the task store. \<open>StoreTaskResult\<close> carries the task id, the status and what
  the result text is built from (process id, elapsed seconds, exit code).
\<close>

datatype effect =
    Sleep nat
  | GetExecutionProcess string
  | ListExecutionProcesses string
  | Progress nat nat string nat
  | UpdateTaskStatus string string string
  | StoreTaskResult string string string nat "int option"

text \<open>
  The surroundings of one iteration: the abort signal when it is checked, the Gateway's
  answers, the seconds elapsed, and whether a call on the task store made in this
  iteration resolves.
\<close>

record poll_env =
  aborted :: bool
  getExecutionProcess :: "string \<Rightarrow> js_error + ExecutionProcess"
  listExecutionProcesses :: "string \<Rightarrow> js_error + ExecutionProcess list"
  elapsed :: nat
  storeOk :: bool

datatype control = Return | Continue

text \<open>
  After a store call inside \<open>try\<close>: \<open>return\<close> when it resolved; when it rejected, the
  outer \<open>catch\<close> logs the error and the loop goes on.
\<close>

definition afterStore :: "poll_env \<Rightarrow> control" where
  "afterStore env = (if storeOk env then Return else Continue)"

text \<open>
  The iteration from the point where \<open>process\<close> is known: map the status, emit
  progress (the emitter swallows its own errors), then the three terminal checks.
\<close>

definition handleProcess ::
  "poll_env \<Rightarrow> string \<Rightarrow> string \<Rightarrow> nat \<Rightarrow> ExecutionProcess \<Rightarrow> effect list \<times> control" where
  "handleProcess env processId mcpTaskId i process =
     (let mcpStatus = mapStatus (proc_status process);
          progress = Progress (i + 1) MAX_POLL_ITERATIONS (proc_status process) (elapsed env)
      in if mcpStatus = ''completed''
         then ([progress, StoreTaskResult mcpTaskId ''completed'' processId (elapsed env)
                  (exit_code process)], afterStore env)
         else if mcpStatus = ''failed''
         then ([progress, StoreTaskResult mcpTaskId ''failed'' processId (elapsed env)
                  (exit_code process)], afterStore env)
         else if mcpStatus = ''cancelled''
         then ([progress, UpdateTaskStatus mcpTaskId ''cancelled'' ''Execution killed''],
               afterStore env)
         else ([progress], Continue))"

text \<open>
  The \<open>try\<close> block of one iteration. A rejected \<open>getExecutionProcess\<close> falls back to
  \<open>listExecutionProcesses\<close> and \<open>find\<close>; a rejected listing is caught by the outer
  \<open>catch\<close>, which continues the loop.
\<close>

definition pollIteration ::
  "poll_env \<Rightarrow> string \<Rightarrow> string \<Rightarrow> string \<Rightarrow> nat \<Rightarrow> effect list \<times> control" where
  "pollIteration env processId sessionId mcpTaskId i =
     (case getExecutionProcess env processId of
        Inr process \<Rightarrow>
          (GetExecutionProcess processId # fst (handleProcess env processId mcpTaskId i process),
           snd (handleProcess env processId mcpTaskId i process))
      | Inl e \<Rightarrow>
          (case listExecutionProcesses env sessionId of
             Inl e' \<Rightarrow>
               ([GetExecutionProcess processId, ListExecutionProcesses sessionId], Continue)
           | Inr processes \<Rightarrow>
               (case find (\<lambda>p. proc_id p = processId) processes of
                  None \<Rightarrow>
                    ([GetExecutionProcess processId, ListExecutionProcesses sessionId,
                      UpdateTaskStatus mcpTaskId ''failed'' ''Execution process not found''],
                     afterStore env)
                | Some found \<Rightarrow>
                    (GetExecutionProcess processId # ListExecutionProcesses sessionId
                       # fst (handleProcess env processId mcpTaskId i found),
                     snd (handleProcess env processId mcpTaskId i found)))))"

text \<open>
  The \<open>for\<close> loop from iteration \<open>i\<close> on, and the call after it. \<open>envs i\<close> is the
  surroundings of iteration \<open>i\<close>.
\<close>

function pollLoop ::
  "(nat \<Rightarrow> poll_env) \<Rightarrow> string \<Rightarrow> string \<Rightarrow> string \<Rightarrow> nat \<Rightarrow> effect list" where
  "pollLoop envs processId sessionId mcpTaskId i =
     (if i < MAX_POLL_ITERATIONS
      then (if aborted (envs i)
            then [UpdateTaskStatus mcpTaskId ''cancelled'' ''Cancelled by client'']
            else Sleep POLL_INTERVAL_MS
                   # fst (pollIteration (envs i) processId sessionId mcpTaskId i)
                   @ (case snd (pollIteration (envs i) processId sessionId mcpTaskId i) of
                        Return \<Rightarrow> []
                      | Continue \<Rightarrow> pollLoop envs processId sessionId mcpTaskId (i + 1)))
      else [UpdateTaskStatus mcpTaskId ''failed'' ''Timed out after 10 minutes''])"
  by pat_completeness auto
termination
  by (relation "measure (\<lambda>(envs, processId, sessionId, mcpTaskId, i). MAX_POLL_ITERATIONS - i)") auto

declare pollLoop.simps [simp del]

definition pollExecutionProcess ::
  "(nat \<Rightarrow> poll_env) \<Rightarrow> string \<Rightarrow> string \<Rightarrow> string \<Rightarrow> effect list" where
  "pollExecutionProcess envs processId sessionId mcpTaskId =
     pollLoop envs processId sessionId mcpTaskId 0"

text \<open>The calls on the task store among the effects, and the time slept.\<close>

fun isStoreCall :: "effect \<Rightarrow> bool" where
  "isStoreCall (UpdateTaskStatus t s msg) = True"
| "isStoreCall (StoreTaskResult t s p d x) = True"
| "isStoreCall _ = False"

fun slept :: "effect list \<Rightarrow> nat" where
  "slept [] = 0"
| "slept (Sleep ms # es) = ms + slept es"
| "slept (e # es) = slept es"

text \<open>A Gateway for concrete runs that knows one process and answers with the given status.\<close>

definition demo_process :: "string \<Rightarrow> ExecutionProcess" where
  "demo_process st = \<lparr>proc_id = ''p1'', proc_status = st, exit_code = None\<rparr>"

definition demo_poll_env :: "bool \<Rightarrow> string \<Rightarrow> poll_env" where
  "demo_poll_env direct st =
     \<lparr>aborted = False,
      getExecutionProcess = (\<lambda>_. if direct then Inr (demo_process st) else Inl (Error ''gone'')),
      listExecutionProcesses = (\<lambda>_. Inr [demo_process st]),
      elapsed = 0, storeOk = True\<rparr>"

section \<open>tools: send_message\<close>

record Session =
  session_id :: string
  workspace_id :: string
  session_executor :: "string option"

record CreateFollowUpRequest =
  prompt :: string
  followup_profile :: ExecutorProfileId

record QueueMessageRequest =
  message :: string
  queue_profile :: ExecutorProfileId

text \<open>The arguments of the tool; \<open>None\<close> is an omitted optional argument.\<close>

record send_args =
  arg_session_id :: string
  arg_prompt :: string
  arg_executor :: "string option"
  arg_variant :: "string option"
  arg_auto_queue :: "bool option"

text \<open>What the Gateway answers to the three client calls of one invocation.\<close>

record send_env =
  getSession :: "string \<Rightarrow> js_error + Session"
  sendFollowUp :: "string \<Rightarrow> CreateFollowUpRequest \<Rightarrow> js_error + ExecutionProcess"
  queueMessage :: "string \<Rightarrow> QueueMessageRequest \<Rightarrow> js_error + unit"

datatype client_call =
    GetSession string
  | SendFollowUp string CreateFollowUpRequest
  | QueueMessage string QueueMessageRequest

text \<open>
  The three results of the handler: \<open>formatSuccess\<close> with the sent summary (executor,
  process id), \<open>formatSuccess\<close> with the queued summary (executor), and
  \<open>formatError\<close> with its type and message.
\<close>

datatype tool_result =
    MessageSent string string
  | MessageQueued string
  | ToolError string string

text \<open>The condition computed in the inner \<open>catch\<close> from the caught error.\<close>

definition shouldQueue :: "bool option \<Rightarrow> js_error \<Rightarrow> bool" where
  "shouldQueue auto_queue e =
     (let errorStr = String_of e
      in auto_queue \<noteq> Some False \<and>
         (str_includes errorStr ''running'' \<or> str_includes errorStr ''busy''
          \<or> str_includes errorStr ''409'' \<or> str_includes errorStr ''conflict''))"

text \<open>\<open>args.executor || session.executor\<close>: the session's executor when the argument is falsy.\<close>

definition resolveExecutor :: "send_args \<Rightarrow> Session \<Rightarrow> string option" where
  "resolveExecutor args session =
     (if truthy (arg_executor args) then arg_executor args else session_executor session)"

text \<open>
  The handler, with the client calls it makes in order. Whatever rejects inside the
  outer \<open>try\<close>, the queue request included, ends in \<open>SEND_FAILED\<close> with the
  stringified error.
\<close>

definition sendMessage :: "send_env \<Rightarrow> send_args \<Rightarrow> client_call list \<times> tool_result" where
  "sendMessage env args =
     (let sid = arg_session_id args in
      case getSession env sid of
        Inl e \<Rightarrow> ([GetSession sid], ToolError ''SEND_FAILED'' (String_of e))
      | Inr session \<Rightarrow>
          (case resolveExecutor args session of
                None \<Rightarrow>
                  ([GetSession sid],
                   ToolError ''EXECUTOR_REQUIRED''
                     ''Session has no prior executions. Provide executor parameter.'')
              | Some ex \<Rightarrow>
                  if ex = [] then
                    ([GetSession sid],
                     ToolError ''EXECUTOR_REQUIRED''
                       ''Session has no prior executions. Provide executor parameter.'')
                  else
                    (let executorProfile = buildExecutorProfile ex (arg_variant args);
                         followUp = \<lparr>prompt = arg_prompt args, followup_profile = executorProfile\<rparr>;
                         queued = \<lparr>message = arg_prompt args, queue_profile = executorProfile\<rparr>
                     in case sendFollowUp env sid followUp of
                          Inr process \<Rightarrow>
                            ([GetSession sid, SendFollowUp sid followUp],
                             MessageSent (toUpperCase ex) (proc_id process))
                        | Inl e \<Rightarrow>
                            if shouldQueue (arg_auto_queue args) e then
                              (case queueMessage env sid queued of
                                 Inr queueResult \<Rightarrow>
                                   ([GetSession sid, SendFollowUp sid followUp, QueueMessage sid queued],
                                    MessageQueued (toUpperCase ex))
                               | Inl qe \<Rightarrow>
                                   ([GetSession sid, SendFollowUp sid followUp, QueueMessage sid queued],
                                    ToolError ''SEND_FAILED'' (String_of qe)))
                            else
                              ([GetSession sid, SendFollowUp sid followUp],
                               ToolError ''SEND_FAILED'' (String_of e)))))"

fun isQueueMessage :: "client_call \<Rightarrow> bool" where
  "isQueueMessage (QueueMessage sid req) = True"
| "isQueueMessage _ = False"

text \<open>A session and Gateway for concrete runs: the follow-up and the queue request answer as given.\<close>

definition demo_send_env :: "js_error + ExecutionProcess \<Rightarrow> js_error + unit \<Rightarrow> send_env" where
  "demo_send_env sent queued =
     \<lparr>getSession = (\<lambda>sid. Inr \<lparr>session_id = sid, workspace_id = ''w1'',
                                session_executor = Some ''CLAUDE_CODE''\<rparr>),
      sendFollowUp = (\<lambda>sid req. sent),
      queueMessage = (\<lambda>sid req. queued)\<rparr>"

definition demo_send_args :: "bool option \<Rightarrow> send_args" where
  "demo_send_args auto_queue =
     \<lparr>arg_session_id = ''s1'', arg_prompt = ''Add error handling'', arg_executor = None,
      arg_variant = None, arg_auto_queue = auto_queue\<rparr>"

section \<open>Executor normalization: proofs\<close>















section \<open>Subscription manager: proofs\<close>

lemma pollUri_other:
  "V \<noteq> uri \<Longrightarrow> fst (pollUri hexdigest cfg env uri st) V = fst st V
     \<and> on_uri V (snd (pollUri hexdigest cfg env uri st)) = on_uri V (snd st)"
  by (simp add: pollUri_def Let_def on_uri_def split: option.splits sum.splits)

lemma pollAll_other:
  "V \<notin> set uris \<Longrightarrow> fst (pollAll hexdigest cfg env uris st) V = fst st V
     \<and> on_uri V (snd (pollAll hexdigest cfg env uris st)) = on_uri V (snd st)"
proof (induction uris arbitrary: st)
  case Nil
  then show ?case by simp
next
  case (Cons u us)
  then have "V \<noteq> u" and "V \<notin> set us" by auto
  with Cons.IH[of "pollUri hexdigest cfg env u st"] pollUri_other[of V u hexdigest cfg env st]
  show ?case by simp
qed

lemma pollUri_cong:
  assumes "fst a U = fst b U" and "on_uri U (snd a) = on_uri U (snd b)"
  shows "fst (pollUri hexdigest cfg env U a) U = fst (pollUri hexdigest cfg env U b) U
     \<and> on_uri U (snd (pollUri hexdigest cfg env U a)) = on_uri U (snd (pollUri hexdigest cfg env U b))"
  using assms
  by (simp add: pollUri_def Let_def on_uri_def split: option.splits sum.splits)

lemma pollAll_at:
  assumes "distinct uris" and "U \<in> set uris"
  shows "fst (pollAll hexdigest cfg env uris st) U = fst (pollUri hexdigest cfg env U st) U
     \<and> on_uri U (snd (pollAll hexdigest cfg env uris st)) = on_uri U (snd (pollUri hexdigest cfg env U st))"
  using assms
proof (induction uris arbitrary: st)
  case Nil
  then show ?case by simp
next
  case (Cons u us)
  show ?case
  proof (cases "u = U")
    case True
    with Cons.prems have "U \<notin> set us" by simp
    from pollAll_other[OF this, of hexdigest cfg env "pollUri hexdigest cfg env U st"] True
    show ?thesis by simp
  next
    case False
    with Cons.prems have d: "distinct us" and i: "U \<in> set us" by auto
    from False have o: "fst (pollUri hexdigest cfg env u st) U = fst st U
       \<and> on_uri U (snd (pollUri hexdigest cfg env u st)) = on_uri U (snd st)"
      using pollUri_other[of U u hexdigest cfg env st] by simp
    from Cons.IH[OF d i, of "pollUri hexdigest cfg env u st"]
      pollUri_cong[of "pollUri hexdigest cfg env u st" U st hexdigest cfg env] o
    show ?thesis by simp
  qed
qed



text \<open>What one tick does about one subscribed URI, read off the loop body.\<close>

lemma checkForChanges_at:
  assumes "distinct (subscriptions m)" and "U \<in> set (subscriptions m)"
  shows "lastHashes (fst (checkForChanges hexdigest cfg env m)) U
           = fst (pollUri hexdigest cfg env U (lastHashes m, [])) U
     \<and> on_uri U (snd (checkForChanges hexdigest cfg env m))
           = on_uri U (snd (pollUri hexdigest cfg env U (lastHashes m, [])))"
  using pollAll_at[OF assms, of hexdigest cfg env "(lastHashes m, [])"]
  by (simp add: checkForChanges_def Let_def)


lemma checkForChanges_frame:
  "subscriptions (fst (checkForChanges hexdigest cfg env m)) = subscriptions m
   \<and> pollTimer (fst (checkForChanges hexdigest cfg env m)) = pollTimer m
   \<and> pollIntervalMs (fst (checkForChanges hexdigest cfg env m)) = pollIntervalMs m"
  by (simp add: checkForChanges_def Let_def)

lemma set_add_distinct: "distinct xs \<Longrightarrow> distinct (set_add x xs)"
  by (simp add: set_add_def)

lemma set_delete_distinct: "distinct xs \<Longrightarrow> distinct (set_delete x xs)"
  by (simp add: set_delete_def)

lemma subscribe_fields:
  "subscriptions (subscribe uri m) = set_add uri (subscriptions m)
   \<and> lastHashes (subscribe uri m) = lastHashes m
   \<and> pollTimer (subscribe uri m) = (if pollTimer m = None then Some (pollIntervalMs m) else pollTimer m)"
  by (simp add: subscribe_def startPolling_def Let_def)

lemma unsubscribe_fields:
  "subscriptions (unsubscribe uri m) = set_delete uri (subscriptions m)
   \<and> lastHashes (unsubscribe uri m) = (lastHashes m)(uri := None)
   \<and> pollTimer (unsubscribe uri m) = (if set_delete uri (subscriptions m) = [] then None else pollTimer m)"
  by (simp add: unsubscribe_def stopPolling_def Let_def)

lemma stopPolling_fields:
  "subscriptions (stopPolling m) = subscriptions m
   \<and> lastHashes (stopPolling m) = lastHashes m
   \<and> pollTimer (stopPolling m) = None"
  by (simp add: stopPolling_def)








lemma step_distinct:
  "distinct (subscriptions m) \<Longrightarrow> distinct (subscriptions (fst (step hexdigest cfg e m)))"
  by (cases e)
     (simp_all add: subscribe_fields unsubscribe_fields stopPolling_fields checkForChanges_frame
        set_add_distinct set_delete_distinct)

lemma run_distinct:
  "distinct (subscriptions m) \<Longrightarrow> distinct (subscriptions (fst (run hexdigest cfg es m)))"
proof (induction es arbitrary: m)
  case Nil
  then show ?case by simp
next
  case (Cons e es)
  from Cons.IH[OF step_distinct[OF Cons.prems, of hexdigest cfg e]]
  show ?case by (simp add: split_beta Let_def)
qed

lemma reached_distinct: "distinct (subscriptions (reached hexdigest cfg es))"
  unfolding reached_def by (rule run_distinct) (simp add: newSubscriptionManager_def)

text \<open>The timer along a history.\<close>

lemma step_timer_needs_subscription:
  assumes "pollTimer m \<noteq> None \<longrightarrow> subscriptions m \<noteq> []"
  shows "pollTimer (fst (step hexdigest cfg e m)) \<noteq> None \<longrightarrow> subscriptions (fst (step hexdigest cfg e m)) \<noteq> []"
  using assms
  by (cases e)
     (auto simp: subscribe_fields unsubscribe_fields stopPolling_fields checkForChanges_frame
        set_add_def split: if_splits)

lemma run_timer_needs_subscription:
  assumes "pollTimer m \<noteq> None \<longrightarrow> subscriptions m \<noteq> []"
  shows "pollTimer (fst (run hexdigest cfg es m)) \<noteq> None \<longrightarrow> subscriptions (fst (run hexdigest cfg es m)) \<noteq> []"
  using assms
proof (induction es arbitrary: m)
  case Nil
  then show ?case by simp
next
  case (Cons e es)
  from Cons.IH[OF step_timer_needs_subscription[OF Cons.prems, of hexdigest cfg e]]
  show ?case by (simp add: split_beta Let_def)
qed

lemma step_timer_iff:
  assumes "pollTimer m \<noteq> None \<longleftrightarrow> subscriptions m \<noteq> []" and "e \<noteq> StopPolling"
  shows "pollTimer (fst (step hexdigest cfg e m)) \<noteq> None \<longleftrightarrow> subscriptions (fst (step hexdigest cfg e m)) \<noteq> []"
  using assms
  by (cases e)
     (auto simp: subscribe_fields unsubscribe_fields checkForChanges_frame
        set_add_def set_delete_def split: if_splits)

lemma run_timer_iff:
  assumes "pollTimer m \<noteq> None \<longleftrightarrow> subscriptions m \<noteq> []" and "StopPolling \<notin> set es"
  shows "pollTimer (fst (run hexdigest cfg es m)) \<noteq> None \<longleftrightarrow> subscriptions (fst (run hexdigest cfg es m)) \<noteq> []"
  using assms
proof (induction es arbitrary: m)
  case Nil
  then show ?case by simp
next
  case (Cons e es)
  from Cons.prems have ne: "e \<noteq> StopPolling" and rest: "StopPolling \<notin> set es" by auto
  from Cons.IH[OF step_timer_iff[OF Cons.prems(1) ne, of hexdigest cfg] rest]
  show ?case by (simp add: split_beta Let_def)
qed




lemma pollUri_failed:
  assumes "parseResourceUri U = None
     \<or> (\<exists>p e. parseResourceUri U = Some p \<and> fetchResourceData cfg (gateway env) p = Inl e)"
  shows "pollUri hexdigest cfg env U st = st"
  using assms by (auto simp: pollUri_def)









text \<open>
  Claim C8. A subscribed URI that does not parse, or whose fetch rejects, is skipped for
  that tick and nothing else: the subscription set and the timer are as before, its
  fingerprint is as before, nothing is sent for it, every subscribed URI gets in the
  same tick what the loop body does for it alone, and the next tick handles the failed
  URI from its old fingerprint.
\<close>

theorem failed_uri_is_skipped_alone:
  assumes m: "m = reached hexdigest cfg es"
    and sub: "U \<in> set (subscriptions m)"
    and failing: "parseResourceUri U = None
       \<or> (\<exists>p e. parseResourceUri U = Some p \<and> fetchResourceData cfg (gateway env) p = Inl e)"
    and tick: "checkForChanges hexdigest cfg env m = (m', log)"
    and tick': "checkForChanges hexdigest cfg env' m' = (m'', log')"
  shows "subscriptions m' = subscriptions m \<and> pollTimer m' = pollTimer m
     \<and> lastHashes m' U = lastHashes m U \<and> on_uri U log = []
     \<and> (\<forall>V \<in> set (subscriptions m).
           lastHashes m' V = fst (pollUri hexdigest cfg env V (lastHashes m, [])) V
         \<and> on_uri V log = on_uri V (snd (pollUri hexdigest cfg env V (lastHashes m, []))))
     \<and> U \<in> set (subscriptions m')
     \<and> lastHashes m'' U = fst (pollUri hexdigest cfg env' U (lastHashes m, [])) U
     \<and> on_uri U log' = on_uri U (snd (pollUri hexdigest cfg env' U (lastHashes m, [])))"
proof -
  have d: "distinct (subscriptions m)" unfolding m by (rule reached_distinct)
  from checkForChanges_frame[of hexdigest cfg env m] tick
  have fr: "subscriptions m' = subscriptions m" "pollTimer m' = pollTimer m" by simp_all
  have each: "\<forall>V \<in> set (subscriptions m).
           lastHashes m' V = fst (pollUri hexdigest cfg env V (lastHashes m, [])) V
         \<and> on_uri V log = on_uri V (snd (pollUri hexdigest cfg env V (lastHashes m, [])))"
  proof
    fix V assume "V \<in> set (subscriptions m)"
    from checkForChanges_at[OF d this, of hexdigest cfg env] tick
    show "lastHashes m' V = fst (pollUri hexdigest cfg env V (lastHashes m, [])) V
         \<and> on_uri V log = on_uri V (snd (pollUri hexdigest cfg env V (lastHashes m, [])))"
      by simp
  qed
  from pollUri_failed[OF failing, of hexdigest "(lastHashes m, [])"] each sub
  have u: "lastHashes m' U = lastHashes m U" "on_uri U log = []"
    by (simp_all add: on_uri_def)
  from d fr have d': "distinct (subscriptions m')" by simp
  from sub fr have sub': "U \<in> set (subscriptions m')" by simp
  from checkForChanges_at[OF d' sub', of hexdigest cfg env'] tick'
  have n: "lastHashes m'' U = fst (pollUri hexdigest cfg env' U (lastHashes m', [])) U"
    "on_uri U log' = on_uri U (snd (pollUri hexdigest cfg env' U (lastHashes m', [])))"
    by simp_all
  have "fst (pollUri hexdigest cfg env' U (lastHashes m', [])) U
        = fst (pollUri hexdigest cfg env' U (lastHashes m, [])) U
     \<and> on_uri U (snd (pollUri hexdigest cfg env' U (lastHashes m', [])))
        = on_uri U (snd (pollUri hexdigest cfg env' U (lastHashes m, [])))"
    by (rule pollUri_cong) (simp_all add: u)
  with n have n': "lastHashes m'' U = fst (pollUri hexdigest cfg env' U (lastHashes m, [])) U"
    "on_uri U log' = on_uri U (snd (pollUri hexdigest cfg env' U (lastHashes m, [])))"
    by simp_all
  from fr u each sub' n' show ?thesis by blast
qed

text \<open>
  Claim C4, as the code has it. Along histories without \<open>stopPolling\<close> the timer is
  active exactly when the subscription set is not empty. In every state an active
  timer has a subscription; \<open>stopPolling\<close> clears the timer and keeps the
  subscriptions. The first subscription starts the timer, removing the only one stops
  it, and a running timer is kept by \<open>subscribe\<close> and by an \<open>unsubscribe\<close> that
  leaves a subscription.
\<close>

theorem pollTimer_lifecycle:
  assumes m: "m = reached hexdigest cfg es"
  shows "(StopPolling \<notin> set es \<longrightarrow> (pollTimer m \<noteq> None \<longleftrightarrow> subscriptions m \<noteq> []))
     \<and> (pollTimer m \<noteq> None \<longrightarrow> subscriptions m \<noteq> [])
     \<and> pollTimer (stopPolling m) = None \<and> subscriptions (stopPolling m) = subscriptions m
     \<and> (subscriptions m = [] \<longrightarrow> pollTimer (subscribe U m) \<noteq> None)
     \<and> (subscriptions m = [U] \<longrightarrow> pollTimer (unsubscribe U m) = None)
     \<and> (pollTimer m \<noteq> None \<longrightarrow> pollTimer (subscribe U m) = pollTimer m)
     \<and> (set_delete U (subscriptions m) \<noteq> [] \<longrightarrow> pollTimer (unsubscribe U m) = pollTimer m)"
proof -
  have init: "pollTimer (newSubscriptionManager cfg) = None"
    "subscriptions (newSubscriptionManager cfg) = []"
    by (simp_all add: newSubscriptionManager_def)
  have a: "StopPolling \<notin> set es \<longrightarrow> (pollTimer m \<noteq> None \<longleftrightarrow> subscriptions m \<noteq> [])"
    unfolding m reached_def
    using run_timer_iff[of "newSubscriptionManager cfg" es hexdigest cfg] init by simp
  have b: "pollTimer m \<noteq> None \<longrightarrow> subscriptions m \<noteq> []"
    unfolding m reached_def
    using run_timer_needs_subscription[of "newSubscriptionManager cfg" hexdigest cfg es] init by simp
  have c: "pollTimer (stopPolling m) = None \<and> subscriptions (stopPolling m) = subscriptions m"
    by (simp add: stopPolling_fields)
  have d: "subscriptions m = [] \<longrightarrow> pollTimer (subscribe U m) \<noteq> None"
    by (simp add: subscribe_fields)
  have e: "subscriptions m = [U] \<longrightarrow> pollTimer (unsubscribe U m) = None"
    by (simp add: unsubscribe_fields set_delete_def)
  have f: "pollTimer m \<noteq> None \<longrightarrow> pollTimer (subscribe U m) = pollTimer m"
    by (simp add: subscribe_fields)
  have g: "set_delete U (subscriptions m) \<noteq> [] \<longrightarrow> pollTimer (unsubscribe U m) = pollTimer m"
    by (simp add: unsubscribe_fields)
  from a b c d e f g show ?thesis by blast
qed

text \<open>
  Claim C4 as stated fails after \<open>stopPolling\<close>: the state is reachable, the
  subscription set is not empty and the timer is not active.
\<close>

theorem stopPolling_leaves_subscriptions_without_timer:
  "subscriptions (reached demo_digest demo_config [Subscribe ''vibe://tasks'', StopPolling])
     = [''vibe://tasks'']
   \<and> pollTimer (reached demo_digest demo_config [Subscribe ''vibe://tasks'', StopPolling]) = None"
  by (simp add: reached_def newSubscriptionManager_def demo_config_def subscribe_def
      startPolling_def stopPolling_def set_add_def Let_def)

text \<open>Concrete runs of the theorems on unsubscribing, on a failed URI and on the timer.\<close>

lemma demo_two_eq:
  "demo_two =
     \<lparr>subscriptions = [''vibe://tasks/ab'', ''vibe://tasks''],
      lastHashes = [''vibe://tasks'' \<mapsto> ''#[]''],
      pollTimer = Some 10000, pollIntervalMs = 10000\<rparr>"
proof -
  have p: "parseResourceUri ''vibe://tasks/ab'' = Some (TaskUri ''ab'')" by code_simp
  show ?thesis
    by (simp add: demo_two_def reached_def newSubscriptionManager_def demo_config_def
      subscribe_def startPolling_def set_add_def checkForChanges_def pollUri_def p
      demo_env_def demo_gateway_def Let_def)
      (simp add: parseResourceUri_def demo_digest_def)
qed


theorem failed_uri_is_skipped_alone_witness:
  "fetchResourceData demo_config (gateway (demo_env (Inr ''[{}]'') True)) (TaskUri ''ab'')
     = Inl (Error ''down'')
   \<and> lastHashes (fst (checkForChanges demo_digest demo_config (demo_env (Inr ''[{}]'') True) demo_two))
       ''vibe://tasks/ab'' = None
   \<and> lastHashes (fst (checkForChanges demo_digest demo_config (demo_env (Inr ''[{}]'') True) demo_two))
       ''vibe://tasks'' = Some ''#[{}]''
   \<and> on_uri ''vibe://tasks''
       (snd (checkForChanges demo_digest demo_config (demo_env (Inr ''[{}]'') True) demo_two))
       = [(''vibe://tasks'', True)]
   \<and> ''vibe://tasks/ab''
       \<in> set (subscriptions (fst (checkForChanges demo_digest demo_config (demo_env (Inr ''[{}]'') True) demo_two)))"
proof -
  have p: "parseResourceUri ''vibe://tasks/ab'' = Some (TaskUri ''ab'')" by code_simp
  have f: "fetchResourceData demo_config (gateway (demo_env (Inr ''[{}]'') True)) (TaskUri ''ab'')
     = Inl (Error ''down'')"
    by (simp add: demo_env_def demo_gateway_def)
  have s: "''vibe://tasks/ab'' \<in> set (subscriptions demo_two)" by (simp add: demo_two_eq)
  have fl: "parseResourceUri ''vibe://tasks/ab'' = None
       \<or> (\<exists>p e. parseResourceUri ''vibe://tasks/ab'' = Some p
            \<and> fetchResourceData demo_config (gateway (demo_env (Inr ''[{}]'') True)) p = Inl e)"
    using p f by simp
  have t: "pollUri demo_digest demo_config (demo_env (Inr ''[{}]'') True) ''vibe://tasks''
       ([''vibe://tasks'' \<mapsto> ''#[]''], [])
     = ([''vibe://tasks'' \<mapsto> ''#[{}]''], [(''vibe://tasks'', True)])"
    by (simp add: pollUri_def parseResourceUri_def demo_env_def demo_gateway_def
        demo_digest_def Let_def)
  from failed_uri_is_skipped_alone[OF demo_two_def s fl prod.collapse[symmetric]
      prod.collapse[symmetric], where env' = "demo_env (Inr ''[{}]'') True"]
  show ?thesis using f by (simp add: demo_two_eq t on_uri_def)
qed

theorem pollTimer_lifecycle_witness:
  "StopPolling \<notin> set [Subscribe ''vibe://tasks'', Subscribe ''vibe://context'', Unsubscribe ''vibe://tasks'']
   \<and> subscriptions (reached demo_digest demo_config
        [Subscribe ''vibe://tasks'', Subscribe ''vibe://context'', Unsubscribe ''vibe://tasks''])
       = [''vibe://context'']
   \<and> pollTimer (reached demo_digest demo_config
        [Subscribe ''vibe://tasks'', Subscribe ''vibe://context'', Unsubscribe ''vibe://tasks''])
       \<noteq> None
   \<and> pollTimer (unsubscribe ''vibe://context'' (reached demo_digest demo_config
        [Subscribe ''vibe://tasks'', Subscribe ''vibe://context'', Unsubscribe ''vibe://tasks'']))
       = None"
proof -
  have s: "subscriptions (reached demo_digest demo_config
        [Subscribe ''vibe://tasks'', Subscribe ''vibe://context'', Unsubscribe ''vibe://tasks''])
       = [''vibe://context'']"
    by (simp add: reached_def newSubscriptionManager_def demo_config_def subscribe_def
      unsubscribe_def startPolling_def stopPolling_def set_add_def set_delete_def Let_def)
  from pollTimer_lifecycle[where hexdigest = demo_digest and cfg = demo_config
      and es = "[Subscribe ''vibe://tasks'', Subscribe ''vibe://context'', Unsubscribe ''vibe://tasks'']"
      and U = "''vibe://context''", OF refl] s
  show ?thesis by simp
qed

section \<open>listTasks and mapStatus: proofs\<close>

lemma slice0_positive: "0 < e \<Longrightarrow> slice0 xs e = take (nat e) xs"
  by (simp add: slice0_def)

text \<open>
  Claim C10. With a positive limit, \<open>listTasks\<close> returns the first \<open>limit\<close> tasks of
  the Gateway's list restricted to the status asked for (of the whole list when no
  status is given): the filter comes before the cut. So the result is never longer than
  the limit, each task in it has the status asked for, and it is a subsequence of the
  Gateway's list.
\<close>

theorem listTasks_filters_then_limits:
  assumes "0 < limit" and "status = None \<or> truthy status"
  shows "\<exists>result. listTasks (Inr tasks) status (Some limit) = Inr result
     \<and> result = take (nat limit)
          (case status of None \<Rightarrow> tasks | Some s \<Rightarrow> filter (\<lambda>t. task_status t = s) tasks)
     \<and> int (length result) \<le> limit
     \<and> (\<forall>s. status = Some s \<longrightarrow> (\<forall>t \<in> set result. task_status t = s))
     \<and> subseq result tasks"
proof -
  define chosen where
    "chosen = (case status of None \<Rightarrow> tasks | Some s \<Rightarrow> filter (\<lambda>t. task_status t = s) tasks)"
  have res: "listTasks (Inr tasks) status (Some limit) = Inr (take (nat limit) chosen)"
  proof (cases status)
    case None
    with assms(1) show ?thesis by (simp add: listTasks_def slice0_positive chosen_def)
  next
    case (Some s)
    with assms(2) have "s \<noteq> []" by simp
    with Some assms(1) show ?thesis by (simp add: listTasks_def slice0_positive chosen_def)
  qed
  have len: "int (length (take (nat limit) chosen)) \<le> limit"
    using assms(1) by simp
  have match: "\<forall>s. status = Some s \<longrightarrow> (\<forall>t \<in> set (take (nat limit) chosen). task_status t = s)"
  proof (intro allI impI ballI)
    fix s t
    assume "status = Some s" and "t \<in> set (take (nat limit) chosen)"
    then have "t \<in> set (filter (\<lambda>t. task_status t = s) tasks)"
      by (auto simp: chosen_def dest: in_set_takeD)
    then show "task_status t = s" by simp
  qed
  have "subseq chosen tasks"
    by (cases status) (simp_all add: chosen_def)
  moreover have "subseq (take (nat limit) chosen) chosen"
    by (rule prefix_imp_subseq) (rule take_is_prefix)
  ultimately have sub: "subseq (take (nat limit) chosen) tasks"
    by (rule subseq_order.order_trans[rotated])
  from res len match sub show ?thesis
    unfolding chosen_def by blast
qed

theorem listTasks_filters_then_limits_witness:
  "listTasks (Inr demo_tasks) (Some ''todo'') (Some 2) =
     Inr [\<lparr>task_id = ''1'', task_title = ''a'', task_status = ''todo''\<rparr>,
          \<lparr>task_id = ''3'', task_title = ''c'', task_status = ''todo''\<rparr>]"
proof -
  have a: "(0::int) < 2" by simp
  have b: "Some ''todo'' = None \<or> truthy (Some ''todo'')" by simp
  from listTasks_filters_then_limits[OF a b, of demo_tasks]
  show ?thesis by (simp add: demo_tasks_def)
qed

text \<open>
  Claim C9. \<open>mapStatus\<close> sends \<open>running\<close>, \<open>completed\<close>, \<open>failed\<close>, \<open>killed\<close> to
  \<open>working\<close>, \<open>completed\<close>, \<open>failed\<close>, \<open>cancelled\<close>; on every status of the declared
  type the pair of input and result is one of these four, and whatever the input, the
  result is one of the four tracking statuses.
\<close>

theorem mapStatus_table:
  "mapStatus ''running'' = ''working''
   \<and> mapStatus ''completed'' = ''completed''
   \<and> mapStatus ''failed'' = ''failed''
   \<and> mapStatus ''killed'' = ''cancelled''
   \<and> (\<forall>s \<in> ExecutionProcessStatus.
         (s, mapStatus s) \<in> {(''running'', ''working''), (''completed'', ''completed''),
                               (''failed'', ''failed''), (''killed'', ''cancelled'')})
   \<and> mapStatus s \<in> {''working'', ''completed'', ''failed'', ''cancelled''}"
  by (simp add: mapStatus_def ExecutionProcessStatus_def)

theorem mapStatus_table_witness:
  "''killed'' \<in> ExecutionProcessStatus \<and> mapStatus ''killed'' = ''cancelled''"
proof -
  have k: "''killed'' \<in> ExecutionProcessStatus" by (simp add: ExecutionProcessStatus_def)
  from mapStatus_table[of "''x''"] k show ?thesis by blast
qed

section \<open>Execution tracker: proofs\<close>

lemma slept_append: "slept (xs @ ys) = slept xs + slept ys"
  by (induction xs rule: slept.induct) simp_all

lemma handleProcess_running:
  assumes "proc_status p = ''running''"
  shows "handleProcess env processId mcpTaskId i p
     = ([Progress (i + 1) MAX_POLL_ITERATIONS ''running'' (elapsed env)], Continue)"
  using assms by (simp add: handleProcess_def mapStatus_def Let_def)

lemma handleProcess_no_listing:
  "count_list (fst (handleProcess env processId mcpTaskId i p)) (ListExecutionProcesses sessionId) = 0"
  by (simp add: handleProcess_def Let_def)

lemma handleProcess_no_not_found:
  "UpdateTaskStatus mcpTaskId ''failed'' ''Execution process not found''
     \<notin> set (fst (handleProcess env processId mcpTaskId i p))"
  by (simp add: handleProcess_def Let_def)

lemma pollIteration_running:
  assumes "\<exists>p. proc_status p = ''running''
       \<and> (getExecutionProcess env processId = Inr p
          \<or> (\<exists>e ps. getExecutionProcess env processId = Inl e
                \<and> listExecutionProcesses env sessionId = Inr ps
                \<and> find (\<lambda>q. proc_id q = processId) ps = Some p))"
  shows "snd (pollIteration env processId sessionId mcpTaskId i) = Continue
     \<and> filter isStoreCall (fst (pollIteration env processId sessionId mcpTaskId i)) = []
     \<and> slept (fst (pollIteration env processId sessionId mcpTaskId i)) = 0"
proof -
  from assms obtain p where r: "proc_status p = ''running''"
    and c: "getExecutionProcess env processId = Inr p
          \<or> (\<exists>e ps. getExecutionProcess env processId = Inl e
                \<and> listExecutionProcesses env sessionId = Inr ps
                \<and> find (\<lambda>q. proc_id q = processId) ps = Some p)"
    by blast
  from c show ?thesis
  proof
    assume "getExecutionProcess env processId = Inr p"
    with r show ?thesis by (simp add: pollIteration_def handleProcess_running)
  next
    assume "\<exists>e ps. getExecutionProcess env processId = Inl e
                \<and> listExecutionProcesses env sessionId = Inr ps
                \<and> find (\<lambda>q. proc_id q = processId) ps = Some p"
    then obtain e ps where "getExecutionProcess env processId = Inl e"
      "listExecutionProcesses env sessionId = Inr ps"
      "find (\<lambda>q. proc_id q = processId) ps = Some p" by blast
    with r show ?thesis by (simp add: pollIteration_def handleProcess_running)
  qed
qed

lemma pollLoop_always_running:
  assumes "\<forall>j. i \<le> j \<and> j < MAX_POLL_ITERATIONS \<longrightarrow> \<not> aborted (envs j)
       \<and> (\<exists>p. proc_status p = ''running''
            \<and> (getExecutionProcess (envs j) processId = Inr p
               \<or> (\<exists>e ps. getExecutionProcess (envs j) processId = Inl e
                     \<and> listExecutionProcesses (envs j) sessionId = Inr ps
                     \<and> find (\<lambda>q. proc_id q = processId) ps = Some p)))"
  shows "filter isStoreCall (pollLoop envs processId sessionId mcpTaskId i)
           = [UpdateTaskStatus mcpTaskId ''failed'' ''Timed out after 10 minutes'']
     \<and> last (pollLoop envs processId sessionId mcpTaskId i)
           = UpdateTaskStatus mcpTaskId ''failed'' ''Timed out after 10 minutes''
     \<and> slept (pollLoop envs processId sessionId mcpTaskId i)
           = (MAX_POLL_ITERATIONS - i) * POLL_INTERVAL_MS"
  using assms
proof (induction envs processId sessionId mcpTaskId i rule: pollLoop.induct)
  case (1 envs processId sessionId mcpTaskId i)
  show ?case
  proof (cases "i < MAX_POLL_ITERATIONS")
    case False
    then show ?thesis by (simp add: pollLoop.simps[of envs processId sessionId mcpTaskId i])
  next
    case True
    with "1.prems" have na: "\<not> aborted (envs i)"
      and run: "\<exists>p. proc_status p = ''running''
            \<and> (getExecutionProcess (envs i) processId = Inr p
               \<or> (\<exists>e ps. getExecutionProcess (envs i) processId = Inl e
                     \<and> listExecutionProcesses (envs i) sessionId = Inr ps
                     \<and> find (\<lambda>q. proc_id q = processId) ps = Some p))"
      by auto
    note it = pollIteration_running[OF run, of mcpTaskId i]
    from it have c: "snd (pollIteration (envs i) processId sessionId mcpTaskId i) = Continue"
      by simp
    have rest: "\<forall>j. i + 1 \<le> j \<and> j < MAX_POLL_ITERATIONS \<longrightarrow> \<not> aborted (envs j)
       \<and> (\<exists>p. proc_status p = ''running''
            \<and> (getExecutionProcess (envs j) processId = Inr p
               \<or> (\<exists>e ps. getExecutionProcess (envs j) processId = Inl e
                     \<and> listExecutionProcesses (envs j) sessionId = Inr ps
                     \<and> find (\<lambda>q. proc_id q = processId) ps = Some p)))"
      using "1.prems" by auto
    note ih = "1.IH"[OF True na c rest]
    have ne: "pollLoop envs processId sessionId mcpTaskId (i + 1) \<noteq> []"
      using ih by auto
    have unf: "pollLoop envs processId sessionId mcpTaskId i
        = Sleep POLL_INTERVAL_MS # fst (pollIteration (envs i) processId sessionId mcpTaskId i)
            @ pollLoop envs processId sessionId mcpTaskId (i + 1)"
      using True na c by (simp add: pollLoop.simps[of envs processId sessionId mcpTaskId i])
    have arith: "POLL_INTERVAL_MS + (MAX_POLL_ITERATIONS - (i + 1)) * POLL_INTERVAL_MS
        = (MAX_POLL_ITERATIONS - i) * POLL_INTERVAL_MS"
    proof -
      from True have "MAX_POLL_ITERATIONS - i = Suc (MAX_POLL_ITERATIONS - (i + 1))" by simp
      then show ?thesis by simp
    qed
    from ih it ne arith show ?thesis
      unfolding unf by (simp add: slept_append)
  qed
qed

text \<open>
  Claim C6. If in each of the 120 iterations the abort signal is clear and the Gateway
  reports the process as \<open>running\<close> (by id, or through the listing when the read by id
  rejects), the tracker returns: it has slept 120 times 5000 ms, its only call on the
  task store is the last thing it does, and that call marks the task \<open>failed\<close> with
  the time-out message.
\<close>

theorem tracker_times_out_when_always_running:
  assumes "\<forall>i < MAX_POLL_ITERATIONS. \<not> aborted (envs i)
       \<and> (\<exists>p. proc_status p = ''running''
            \<and> (getExecutionProcess (envs i) processId = Inr p
               \<or> (\<exists>e ps. getExecutionProcess (envs i) processId = Inl e
                     \<and> listExecutionProcesses (envs i) sessionId = Inr ps
                     \<and> find (\<lambda>q. proc_id q = processId) ps = Some p)))"
  shows "filter isStoreCall (pollExecutionProcess envs processId sessionId mcpTaskId)
           = [UpdateTaskStatus mcpTaskId ''failed'' ''Timed out after 10 minutes'']
     \<and> last (pollExecutionProcess envs processId sessionId mcpTaskId)
           = UpdateTaskStatus mcpTaskId ''failed'' ''Timed out after 10 minutes''
     \<and> slept (pollExecutionProcess envs processId sessionId mcpTaskId) = 120 * 5000
     \<and> MAX_POLL_ITERATIONS = 120 \<and> POLL_INTERVAL_MS = 5000"
proof -
  from assms have "\<forall>j. 0 \<le> j \<and> j < MAX_POLL_ITERATIONS \<longrightarrow> \<not> aborted (envs j)
       \<and> (\<exists>p. proc_status p = ''running''
            \<and> (getExecutionProcess (envs j) processId = Inr p
               \<or> (\<exists>e ps. getExecutionProcess (envs j) processId = Inl e
                     \<and> listExecutionProcesses (envs j) sessionId = Inr ps
                     \<and> find (\<lambda>q. proc_id q = processId) ps = Some p)))"
    by simp
  from pollLoop_always_running[OF this, of mcpTaskId] show ?thesis
    by (simp add: pollExecutionProcess_def MAX_POLL_ITERATIONS_def POLL_INTERVAL_MS_def)
qed

theorem tracker_times_out_when_always_running_witness:
  "filter isStoreCall
      (pollExecutionProcess (\<lambda>i. demo_poll_env (even i) ''running'') ''p1'' ''s1'' ''t1'')
     = [UpdateTaskStatus ''t1'' ''failed'' ''Timed out after 10 minutes'']
   \<and> slept (pollExecutionProcess (\<lambda>i. demo_poll_env (even i) ''running'') ''p1'' ''s1'' ''t1'')
     = 600000"
proof -
  have h: "\<forall>i < MAX_POLL_ITERATIONS. \<not> aborted (demo_poll_env (even i) ''running'')
       \<and> (\<exists>p. proc_status p = ''running''
            \<and> (getExecutionProcess (demo_poll_env (even i) ''running'') ''p1'' = Inr p
               \<or> (\<exists>e ps. getExecutionProcess (demo_poll_env (even i) ''running'') ''p1'' = Inl e
                     \<and> listExecutionProcesses (demo_poll_env (even i) ''running'') ''s1'' = Inr ps
                     \<and> find (\<lambda>q. proc_id q = ''p1'') ps = Some p)))"
    by (simp add: demo_poll_env_def demo_process_def)
  from tracker_times_out_when_always_running[OF h, of "''t1''"] show ?thesis by simp
qed

text \<open>
  Claim C5. In one iteration, a read by id that resolves is used as it is, without a
  listing. When it rejects, the session's processes are listed exactly once: a process
  with the id found in the listing is handled exactly as one read by id; the call
  marking the task \<open>failed\<close> as not found is made exactly when the listing resolves
  without that id; a rejected listing marks nothing and the loop continues. In the loop,
  the not-found mark accepted by the store is the last effect, and a found process that
  is \<open>running\<close> is followed by the next iteration.
\<close>

theorem fetch_failure_falls_back_once:
  "(\<forall>p. getExecutionProcess env processId = Inr p \<longrightarrow>
      pollIteration env processId sessionId mcpTaskId i
        = (GetExecutionProcess processId # fst (handleProcess env processId mcpTaskId i p),
           snd (handleProcess env processId mcpTaskId i p))
      \<and> count_list (fst (pollIteration env processId sessionId mcpTaskId i))
           (ListExecutionProcesses sessionId) = 0
      \<and> UpdateTaskStatus mcpTaskId ''failed'' ''Execution process not found''
           \<notin> set (fst (pollIteration env processId sessionId mcpTaskId i)))
   \<and> (\<forall>e. getExecutionProcess env processId = Inl e \<longrightarrow>
      count_list (fst (pollIteration env processId sessionId mcpTaskId i))
           (ListExecutionProcesses sessionId) = 1
      \<and> (UpdateTaskStatus mcpTaskId ''failed'' ''Execution process not found''
             \<in> set (fst (pollIteration env processId sessionId mcpTaskId i))
           \<longleftrightarrow> (\<exists>ps. listExecutionProcesses env sessionId = Inr ps
                  \<and> find (\<lambda>q. proc_id q = processId) ps = None))
      \<and> (\<forall>ps found. listExecutionProcesses env sessionId = Inr ps
             \<and> find (\<lambda>q. proc_id q = processId) ps = Some found \<longrightarrow>
           pollIteration env processId sessionId mcpTaskId i
             = (GetExecutionProcess processId # ListExecutionProcesses sessionId
                  # fst (handleProcess env processId mcpTaskId i found),
                snd (handleProcess env processId mcpTaskId i found)))
      \<and> (\<forall>ps. listExecutionProcesses env sessionId = Inr ps
             \<and> find (\<lambda>q. proc_id q = processId) ps = None \<longrightarrow>
           pollIteration env processId sessionId mcpTaskId i
             = ([GetExecutionProcess processId, ListExecutionProcesses sessionId,
                 UpdateTaskStatus mcpTaskId ''failed'' ''Execution process not found''],
                if storeOk env then Return else Continue))
      \<and> (\<forall>e'. listExecutionProcesses env sessionId = Inl e' \<longrightarrow>
           pollIteration env processId sessionId mcpTaskId i
             = ([GetExecutionProcess processId, ListExecutionProcesses sessionId], Continue)))
   \<and> (\<forall>e ps. i < MAX_POLL_ITERATIONS \<and> \<not> aborted (envs i)
         \<and> getExecutionProcess (envs i) processId = Inl e
         \<and> listExecutionProcesses (envs i) sessionId = Inr ps
         \<and> find (\<lambda>q. proc_id q = processId) ps = None \<and> storeOk (envs i) \<longrightarrow>
       pollLoop envs processId sessionId mcpTaskId i
         = [Sleep POLL_INTERVAL_MS, GetExecutionProcess processId, ListExecutionProcesses sessionId,
            UpdateTaskStatus mcpTaskId ''failed'' ''Execution process not found''])
   \<and> (\<forall>e ps found. i < MAX_POLL_ITERATIONS \<and> \<not> aborted (envs i)
         \<and> getExecutionProcess (envs i) processId = Inl e
         \<and> listExecutionProcesses (envs i) sessionId = Inr ps
         \<and> find (\<lambda>q. proc_id q = processId) ps = Some found
         \<and> proc_status found = ''running'' \<longrightarrow>
       pollLoop envs processId sessionId mcpTaskId i
         = Sleep POLL_INTERVAL_MS # GetExecutionProcess processId # ListExecutionProcesses sessionId
             # Progress (i + 1) MAX_POLL_ITERATIONS ''running'' (elapsed (envs i))
             # pollLoop envs processId sessionId mcpTaskId (i + 1))"
proof -
  have direct: "\<forall>p. getExecutionProcess env processId = Inr p \<longrightarrow>
      pollIteration env processId sessionId mcpTaskId i
        = (GetExecutionProcess processId # fst (handleProcess env processId mcpTaskId i p),
           snd (handleProcess env processId mcpTaskId i p))
      \<and> count_list (fst (pollIteration env processId sessionId mcpTaskId i))
           (ListExecutionProcesses sessionId) = 0
      \<and> UpdateTaskStatus mcpTaskId ''failed'' ''Execution process not found''
           \<notin> set (fst (pollIteration env processId sessionId mcpTaskId i))"
    by (simp add: pollIteration_def handleProcess_no_listing handleProcess_no_not_found)
  have fallback: "\<forall>e. getExecutionProcess env processId = Inl e \<longrightarrow>
      count_list (fst (pollIteration env processId sessionId mcpTaskId i))
           (ListExecutionProcesses sessionId) = 1
      \<and> (UpdateTaskStatus mcpTaskId ''failed'' ''Execution process not found''
             \<in> set (fst (pollIteration env processId sessionId mcpTaskId i))
           \<longleftrightarrow> (\<exists>ps. listExecutionProcesses env sessionId = Inr ps
                  \<and> find (\<lambda>q. proc_id q = processId) ps = None))
      \<and> (\<forall>ps found. listExecutionProcesses env sessionId = Inr ps
             \<and> find (\<lambda>q. proc_id q = processId) ps = Some found \<longrightarrow>
           pollIteration env processId sessionId mcpTaskId i
             = (GetExecutionProcess processId # ListExecutionProcesses sessionId
                  # fst (handleProcess env processId mcpTaskId i found),
                snd (handleProcess env processId mcpTaskId i found)))
      \<and> (\<forall>ps. listExecutionProcesses env sessionId = Inr ps
             \<and> find (\<lambda>q. proc_id q = processId) ps = None \<longrightarrow>
           pollIteration env processId sessionId mcpTaskId i
             = ([GetExecutionProcess processId, ListExecutionProcesses sessionId,
                 UpdateTaskStatus mcpTaskId ''failed'' ''Execution process not found''],
                if storeOk env then Return else Continue))
      \<and> (\<forall>e'. listExecutionProcesses env sessionId = Inl e' \<longrightarrow>
           pollIteration env processId sessionId mcpTaskId i
             = ([GetExecutionProcess processId, ListExecutionProcesses sessionId], Continue))"
  proof (intro allI impI)
    fix e assume g: "getExecutionProcess env processId = Inl e"
    show "count_list (fst (pollIteration env processId sessionId mcpTaskId i))
           (ListExecutionProcesses sessionId) = 1
      \<and> (UpdateTaskStatus mcpTaskId ''failed'' ''Execution process not found''
             \<in> set (fst (pollIteration env processId sessionId mcpTaskId i))
           \<longleftrightarrow> (\<exists>ps. listExecutionProcesses env sessionId = Inr ps
                  \<and> find (\<lambda>q. proc_id q = processId) ps = None))
      \<and> (\<forall>ps found. listExecutionProcesses env sessionId = Inr ps
             \<and> find (\<lambda>q. proc_id q = processId) ps = Some found \<longrightarrow>
           pollIteration env processId sessionId mcpTaskId i
             = (GetExecutionProcess processId # ListExecutionProcesses sessionId
                  # fst (handleProcess env processId mcpTaskId i found),
                snd (handleProcess env processId mcpTaskId i found)))
      \<and> (\<forall>ps. listExecutionProcesses env sessionId = Inr ps
             \<and> find (\<lambda>q. proc_id q = processId) ps = None \<longrightarrow>
           pollIteration env processId sessionId mcpTaskId i
             = ([GetExecutionProcess processId, ListExecutionProcesses sessionId,
                 UpdateTaskStatus mcpTaskId ''failed'' ''Execution process not found''],
                if storeOk env then Return else Continue))
      \<and> (\<forall>e'. listExecutionProcesses env sessionId = Inl e' \<longrightarrow>
           pollIteration env processId sessionId mcpTaskId i
             = ([GetExecutionProcess processId, ListExecutionProcesses sessionId], Continue))"
    proof (cases "listExecutionProcesses env sessionId")
      case (Inl e')
      with g show ?thesis by (simp add: pollIteration_def)
    next
      case (Inr ps)
      show ?thesis
      proof (cases "find (\<lambda>q. proc_id q = processId) ps")
        case None
        with g Inr show ?thesis by (simp add: pollIteration_def afterStore_def)
      next
        case (Some found)
        with g Inr show ?thesis
          by (simp add: pollIteration_def handleProcess_no_listing handleProcess_no_not_found)
      qed
    qed
  qed
  have ends: "\<forall>e ps. i < MAX_POLL_ITERATIONS \<and> \<not> aborted (envs i)
         \<and> getExecutionProcess (envs i) processId = Inl e
         \<and> listExecutionProcesses (envs i) sessionId = Inr ps
         \<and> find (\<lambda>q. proc_id q = processId) ps = None \<and> storeOk (envs i) \<longrightarrow>
       pollLoop envs processId sessionId mcpTaskId i
         = [Sleep POLL_INTERVAL_MS, GetExecutionProcess processId, ListExecutionProcesses sessionId,
            UpdateTaskStatus mcpTaskId ''failed'' ''Execution process not found'']"
    by (simp add: pollLoop.simps[of envs processId sessionId mcpTaskId i] pollIteration_def
        afterStore_def)
  have goes_on: "\<forall>e ps found. i < MAX_POLL_ITERATIONS \<and> \<not> aborted (envs i)
         \<and> getExecutionProcess (envs i) processId = Inl e
         \<and> listExecutionProcesses (envs i) sessionId = Inr ps
         \<and> find (\<lambda>q. proc_id q = processId) ps = Some found
         \<and> proc_status found = ''running'' \<longrightarrow>
       pollLoop envs processId sessionId mcpTaskId i
         = Sleep POLL_INTERVAL_MS # GetExecutionProcess processId # ListExecutionProcesses sessionId
             # Progress (i + 1) MAX_POLL_ITERATIONS ''running'' (elapsed (envs i))
             # pollLoop envs processId sessionId mcpTaskId (i + 1)"
    by (simp add: pollLoop.simps[of envs processId sessionId mcpTaskId i] pollIteration_def
        handleProcess_running)
  from direct fallback ends goes_on show ?thesis by blast
qed

theorem fetch_failure_falls_back_once_witness:
  "pollIteration (demo_poll_env False ''completed'') ''p1'' ''s1'' ''t1'' 0
     = ([GetExecutionProcess ''p1'', ListExecutionProcesses ''s1'', Progress 1 120 ''completed'' 0,
         StoreTaskResult ''t1'' ''completed'' ''p1'' 0 None], Return)
   \<and> pollLoop (\<lambda>i. demo_poll_env False ''running'') ''p2'' ''s1'' ''t1'' 0
     = [Sleep 5000, GetExecutionProcess ''p2'', ListExecutionProcesses ''s1'',
        UpdateTaskStatus ''t1'' ''failed'' ''Execution process not found'']"
proof -
  have a: "getExecutionProcess (demo_poll_env False ''completed'') ''p1'' = Inl (Error ''gone'')"
    by (simp add: demo_poll_env_def)
  have b: "listExecutionProcesses (demo_poll_env False ''completed'') ''s1''
      = Inr [demo_process ''completed'']
    \<and> find (\<lambda>q. proc_id q = ''p1'') [demo_process ''completed''] = Some (demo_process ''completed'')"
    by (simp add: demo_poll_env_def demo_process_def)
  have c: "0 < MAX_POLL_ITERATIONS \<and> \<not> aborted (demo_poll_env False ''running'')
      \<and> getExecutionProcess (demo_poll_env False ''running'') ''p2'' = Inl (Error ''gone'')
      \<and> listExecutionProcesses (demo_poll_env False ''running'') ''s1'' = Inr [demo_process ''running'']
      \<and> find (\<lambda>q. proc_id q = ''p2'') [demo_process ''running''] = None
      \<and> storeOk (demo_poll_env False ''running'')"
    by (simp add: demo_poll_env_def demo_process_def MAX_POLL_ITERATIONS_def)
  have h: "handleProcess (demo_poll_env False ''completed'') ''p1'' ''t1'' 0 (demo_process ''completed'')
      = ([Progress 1 120 ''completed'' 0, StoreTaskResult ''t1'' ''completed'' ''p1'' 0 None], Return)"
    by (simp add: handleProcess_def mapStatus_def demo_poll_env_def demo_process_def afterStore_def
        MAX_POLL_ITERATIONS_def Let_def)
  note t1 = fetch_failure_falls_back_once[of "demo_poll_env False ''completed''" "''p1''" "''s1''"
      "''t1''" 0 "\<lambda>i. demo_poll_env False ''running''"]
  note t2 = fetch_failure_falls_back_once[of "demo_poll_env False ''running''" "''p2''" "''s1''"
      "''t1''" 0 "\<lambda>i. demo_poll_env False ''running''"]
  from t1 a b h have first: "pollIteration (demo_poll_env False ''completed'') ''p1'' ''s1'' ''t1'' 0
     = ([GetExecutionProcess ''p1'', ListExecutionProcesses ''s1'', Progress 1 120 ''completed'' 0,
         StoreTaskResult ''t1'' ''completed'' ''p1'' 0 None], Return)"
    by simp
  from t2 c have second: "pollLoop (\<lambda>i. demo_poll_env False ''running'') ''p2'' ''s1'' ''t1'' 0
     = [Sleep POLL_INTERVAL_MS, GetExecutionProcess ''p2'', ListExecutionProcesses ''s1'',
        UpdateTaskStatus ''t1'' ''failed'' ''Execution process not found'']"
    by blast
  from first second show ?thesis by (simp add: POLL_INTERVAL_MS_def)
qed

section \<open>send_message: proofs\<close>

lemma shouldQueue_iff:
  "shouldQueue auto_queue e \<longleftrightarrow>
     auto_queue \<noteq> Some False
     \<and> (\<exists>tok \<in> {''running'', ''busy'', ''409'', ''conflict''}. sublist tok (String_of e))"
  by (auto simp: shouldQueue_def str_includes_def Let_def)

lemma sendMessage_after_failed_send:
  assumes "getSession env (arg_session_id args) = Inr session"
    and "resolveExecutor args session = Some ex"
    and "ex \<noteq> []"
    and "\<And>req. sendFollowUp env (arg_session_id args) req = Inl e"
  shows "sendMessage env args =
     (let sid = arg_session_id args;
          executorProfile = buildExecutorProfile ex (arg_variant args);
          followUp = \<lparr>prompt = arg_prompt args, followup_profile = executorProfile\<rparr>;
          queued = \<lparr>message = arg_prompt args, queue_profile = executorProfile\<rparr>
      in if shouldQueue (arg_auto_queue args) e
         then (case queueMessage env sid queued of
                 Inr queueResult \<Rightarrow>
                   ([GetSession sid, SendFollowUp sid followUp, QueueMessage sid queued],
                    MessageQueued (toUpperCase ex))
               | Inl qe \<Rightarrow>
                   ([GetSession sid, SendFollowUp sid followUp, QueueMessage sid queued],
                    ToolError ''SEND_FAILED'' (String_of qe)))
         else ([GetSession sid, SendFollowUp sid followUp],
               ToolError ''SEND_FAILED'' (String_of e)))"
  using assms by (simp add: sendMessage_def Let_def)

lemma conflict_409_is_busy:
  "\<exists>tok \<in> {''running'', ''busy'', ''409'', ''conflict''}.
      sublist tok (String_of (Error (pre @ ''409 conflict'' @ post)))"
proof -
  have "String_of (Error (pre @ ''409 conflict'' @ post))
      = (''Error: '' @ pre) @ ''409'' @ ('' conflict'' @ post)"
    by simp
  then have "sublist ''409'' (String_of (Error (pre @ ''409 conflict'' @ post)))"
    unfolding sublist_def by blast
  then show ?thesis by blast
qed

lemma invalid_request_is_not_busy:
  assumes "e = Error ''invalid request'' \<or> e = Error ''API error: invalid request''"
  shows "\<not> (\<exists>tok \<in> {''running'', ''busy'', ''409'', ''conflict''}. sublist tok (String_of e))"
proof -
  have a: "\<not> sublist ''running'' ''Error: invalid request''" by code_simp
  have b: "\<not> sublist ''busy'' ''Error: invalid request''" by code_simp
  have c: "\<not> sublist ''409'' ''Error: invalid request''" by code_simp
  have d: "\<not> sublist ''conflict'' ''Error: invalid request''" by code_simp
  have a': "\<not> sublist ''running'' ''Error: API error: invalid request''" by code_simp
  have b': "\<not> sublist ''busy'' ''Error: API error: invalid request''" by code_simp
  have c': "\<not> sublist ''409'' ''Error: API error: invalid request''" by code_simp
  have d': "\<not> sublist ''conflict'' ''Error: API error: invalid request''" by code_simp
  from assms show ?thesis
  proof
    assume "e = Error ''invalid request''"
    with a b c d show ?thesis by simp
  next
    assume "e = Error ''API error: invalid request''"
    with a' b' c' d' show ?thesis by simp
  qed
qed

text \<open>
  Claim C2, as the code has it. When the session is found, an executor is known and
  the follow-up is rejected with error \<open>e\<close>: the queue request is made exactly when
  \<open>auto_queue\<close> is not \<open>false\<close> and \<open>String(e)\<close> contains one of \<open>running\<close>, \<open>busy\<close>,
  \<open>409\<close>, \<open>conflict\<close>. When it is made, the result is the queued message if the queue
  request is accepted and \<open>SEND_FAILED\<close> with the queue request's error if it is
  rejected; when it is not made, the result is \<open>SEND_FAILED\<close> with the send error. An
  error message containing \<open>409 conflict\<close> leads to the queue request unless
  \<open>auto_queue\<close> is \<open>false\<close>; the message \<open>invalid request\<close> never does.
\<close>

theorem sendMessage_queues_on_busy_signal:
  assumes session: "getSession env (arg_session_id args) = Inr session"
    and exec: "resolveExecutor args session = Some ex"
    and ex: "ex \<noteq> []"
    and send: "\<And>req. sendFollowUp env (arg_session_id args) req = Inl e"
  shows "(list_ex isQueueMessage (fst (sendMessage env args)) \<longleftrightarrow>
            arg_auto_queue args \<noteq> Some False
            \<and> (\<exists>tok \<in> {''running'', ''busy'', ''409'', ''conflict''}. sublist tok (String_of e)))
     \<and> (\<not> list_ex isQueueMessage (fst (sendMessage env args)) \<longrightarrow>
            snd (sendMessage env args) = ToolError ''SEND_FAILED'' (String_of e))
     \<and> (list_ex isQueueMessage (fst (sendMessage env args)) \<and> (\<forall>req. queueMessage env (arg_session_id args) req = Inr ())
            \<longrightarrow> snd (sendMessage env args) = MessageQueued (toUpperCase ex))
     \<and> (\<forall>qe. list_ex isQueueMessage (fst (sendMessage env args)) \<and> (\<forall>req. queueMessage env (arg_session_id args) req = Inl qe)
            \<longrightarrow> snd (sendMessage env args) = ToolError ''SEND_FAILED'' (String_of qe))
     \<and> (\<forall>pre post. e = Error (pre @ ''409 conflict'' @ post) \<longrightarrow>
            (list_ex isQueueMessage (fst (sendMessage env args)) \<longleftrightarrow> arg_auto_queue args \<noteq> Some False))
     \<and> (e = Error ''invalid request'' \<or> e = Error ''API error: invalid request'' \<longrightarrow>
            \<not> list_ex isQueueMessage (fst (sendMessage env args)))"
proof -
  note unf = sendMessage_after_failed_send[OF session exec ex send]
  have q: "list_ex isQueueMessage (fst (sendMessage env args)) \<longleftrightarrow> shouldQueue (arg_auto_queue args) e"
    unfolding unf by (simp add: Let_def split: sum.splits)
  have a: "list_ex isQueueMessage (fst (sendMessage env args)) \<longleftrightarrow>
            arg_auto_queue args \<noteq> Some False
            \<and> (\<exists>tok \<in> {''running'', ''busy'', ''409'', ''conflict''}. sublist tok (String_of e))"
    unfolding q by (rule shouldQueue_iff)
  have b: "\<not> list_ex isQueueMessage (fst (sendMessage env args)) \<longrightarrow>
            snd (sendMessage env args) = ToolError ''SEND_FAILED'' (String_of e)"
    unfolding q unfolding unf by (simp add: Let_def)
  have c: "list_ex isQueueMessage (fst (sendMessage env args)) \<and> (\<forall>req. queueMessage env (arg_session_id args) req = Inr ())
            \<longrightarrow> snd (sendMessage env args) = MessageQueued (toUpperCase ex)"
    unfolding q unfolding unf by (simp add: Let_def)
  have d: "\<forall>qe. list_ex isQueueMessage (fst (sendMessage env args)) \<and> (\<forall>req. queueMessage env (arg_session_id args) req = Inl qe)
            \<longrightarrow> snd (sendMessage env args) = ToolError ''SEND_FAILED'' (String_of qe)"
    unfolding q unfolding unf by (simp add: Let_def)
  have f: "\<forall>pre post. e = Error (pre @ ''409 conflict'' @ post) \<longrightarrow>
            (list_ex isQueueMessage (fst (sendMessage env args)) \<longleftrightarrow> arg_auto_queue args \<noteq> Some False)"
    unfolding a using conflict_409_is_busy by blast
  have g: "e = Error ''invalid request'' \<or> e = Error ''API error: invalid request'' \<longrightarrow>
            \<not> list_ex isQueueMessage (fst (sendMessage env args))"
    unfolding a using invalid_request_is_not_busy[of e] by blast
  from a b c d f g show ?thesis by blast
qed

lemma demo_send_run:
  "sendMessage (demo_send_env (Inl (Error ''API error: 409 conflict'')) queued) (demo_send_args aq) =
     (let followUp = \<lparr>prompt = ''Add error handling'',
                      followup_profile = \<lparr>executor = ''CLAUDE_CODE'', variant = None\<rparr>\<rparr>;
          req = \<lparr>message = ''Add error handling'',
                 queue_profile = \<lparr>executor = ''CLAUDE_CODE'', variant = None\<rparr>\<rparr>
      in if aq \<noteq> Some False
         then ([GetSession ''s1'', SendFollowUp ''s1'' followUp, QueueMessage ''s1'' req],
               case queued of Inr u \<Rightarrow> MessageQueued ''CLAUDE_CODE''
                            | Inl qe \<Rightarrow> ToolError ''SEND_FAILED'' (String_of qe))
         else ([GetSession ''s1'', SendFollowUp ''s1'' followUp],
               ToolError ''SEND_FAILED'' ''Error: API error: 409 conflict''))"
proof -
  have n: "normalizeExecutor ''CLAUDE_CODE'' = ''CLAUDE_CODE''" by code_simp
  have u: "toUpperCase ''CLAUDE_CODE'' = ''CLAUDE_CODE''" by code_simp
  have s: "shouldQueue aq (Error ''API error: 409 conflict'') \<longleftrightarrow> aq \<noteq> Some False"
    using conflict_409_is_busy[of "''API error: ''" "[]"] by (simp add: shouldQueue_iff)
  show ?thesis
    by (simp add: sendMessage_def demo_send_env_def demo_send_args_def buildExecutorProfile_def
        resolveExecutor_def n u s Let_def split: sum.splits)
qed

theorem sendMessage_queues_on_busy_signal_witness:
  "snd (sendMessage (demo_send_env (Inl (Error ''API error: 409 conflict'')) (Inr ()))
            (demo_send_args None)) = MessageQueued ''CLAUDE_CODE''
   \<and> list_ex isQueueMessage
       (fst (sendMessage (demo_send_env (Inl (Error ''API error: 409 conflict'')) (Inr ()))
            (demo_send_args None)))
   \<and> sendMessage (demo_send_env (Inl (Error ''API error: 409 conflict'')) (Inr ()))
            (demo_send_args (Some False))
       = ([GetSession ''s1'',
           SendFollowUp ''s1'' \<lparr>prompt = ''Add error handling'',
              followup_profile = \<lparr>executor = ''CLAUDE_CODE'', variant = None\<rparr>\<rparr>],
          ToolError ''SEND_FAILED'' ''Error: API error: 409 conflict'')
   \<and> \<not> list_ex isQueueMessage
       (fst (sendMessage (demo_send_env (Inl (Error ''API error: invalid request'')) (Inr ()))
            (demo_send_args (Some True))))
   \<and> snd (sendMessage (demo_send_env (Inl (Error ''API error: invalid request'')) (Inr ()))
            (demo_send_args (Some True)))
       = ToolError ''SEND_FAILED'' ''Error: API error: invalid request''"
proof -
  let ?busy = "demo_send_env (Inl (Error ''API error: 409 conflict'')) (Inr ())"
  let ?bad = "demo_send_env (Inl (Error ''API error: invalid request'')) (Inr ())"
  let ?session = "\<lparr>session_id = ''s1'', workspace_id = ''w1'', session_executor = Some ''CLAUDE_CODE''\<rparr>"
  have h1: "\<And>sent aq. getSession (demo_send_env sent (Inr ())) (arg_session_id (demo_send_args aq))
      = Inr ?session"
    by (simp add: demo_send_env_def demo_send_args_def)
  have h2: "\<And>aq. resolveExecutor (demo_send_args aq) ?session = Some ''CLAUDE_CODE''"
    by (simp add: resolveExecutor_def demo_send_args_def)
  have h3: "''CLAUDE_CODE'' \<noteq> []" by simp
  have h4: "\<And>e aq req. sendFollowUp (demo_send_env (Inl e) (Inr ())) (arg_session_id (demo_send_args aq)) req
      = Inl e"
    by (simp add: demo_send_env_def)
  have q: "\<And>sent aq. \<forall>req. queueMessage (demo_send_env sent (Inr ())) (arg_session_id (demo_send_args aq)) req
      = Inr ()"
    by (simp add: demo_send_env_def)
  have au: "\<And>aq. arg_auto_queue (demo_send_args aq) = aq" by (simp add: demo_send_args_def)
  have u: "toUpperCase ''CLAUDE_CODE'' = ''CLAUDE_CODE''" by code_simp
  have c: "Error ''API error: 409 conflict'' = Error (''API error: '' @ ''409 conflict'' @ [])"
    by simp
  note omitted = sendMessage_queues_on_busy_signal[OF h1 h2 h3 h4,
      of "Error ''API error: 409 conflict''" None]
  note off = sendMessage_queues_on_busy_signal[OF h1 h2 h3 h4,
      of "Error ''API error: 409 conflict''" "Some False"]
  note bad = sendMessage_queues_on_busy_signal[OF h1 h2 h3 h4,
      of "Error ''API error: invalid request''" "Some True"]
  from omitted have "\<forall>pre post. Error ''API error: 409 conflict'' = Error (pre @ ''409 conflict'' @ post) \<longrightarrow>
      (list_ex isQueueMessage (fst (sendMessage ?busy (demo_send_args None)))
         \<longleftrightarrow> arg_auto_queue (demo_send_args None) \<noteq> Some False)"
    by (elim conjE)
  with c have "list_ex isQueueMessage (fst (sendMessage ?busy (demo_send_args None)))
         \<longleftrightarrow> arg_auto_queue (demo_send_args None) \<noteq> Some False"
    by blast
  then have l: "list_ex isQueueMessage (fst (sendMessage ?busy (demo_send_args None)))"
    by (simp add: au)
  from omitted have "list_ex isQueueMessage (fst (sendMessage ?busy (demo_send_args None)))
      \<and> (\<forall>req. queueMessage ?busy (arg_session_id (demo_send_args None)) req = Inr ())
      \<longrightarrow> snd (sendMessage ?busy (demo_send_args None)) = MessageQueued (toUpperCase ''CLAUDE_CODE'')"
    by (elim conjE)
  with l q u have first: "snd (sendMessage ?busy (demo_send_args None)) = MessageQueued ''CLAUDE_CODE''"
    by simp
  from off have "\<forall>pre post. Error ''API error: 409 conflict'' = Error (pre @ ''409 conflict'' @ post) \<longrightarrow>
      (list_ex isQueueMessage (fst (sendMessage ?busy (demo_send_args (Some False))))
         \<longleftrightarrow> arg_auto_queue (demo_send_args (Some False)) \<noteq> Some False)"
    by (elim conjE)
  with c have "list_ex isQueueMessage (fst (sendMessage ?busy (demo_send_args (Some False))))
         \<longleftrightarrow> arg_auto_queue (demo_send_args (Some False)) \<noteq> Some False"
    by blast
  then have nl: "\<not> list_ex isQueueMessage (fst (sendMessage ?busy (demo_send_args (Some False))))"
    by (simp add: au)
  have second: "sendMessage ?busy (demo_send_args (Some False))
       = ([GetSession ''s1'',
           SendFollowUp ''s1'' \<lparr>prompt = ''Add error handling'',
              followup_profile = \<lparr>executor = ''CLAUDE_CODE'', variant = None\<rparr>\<rparr>],
          ToolError ''SEND_FAILED'' ''Error: API error: 409 conflict'')"
    using nl by (simp add: demo_send_run)
  from bad have nb: "\<not> list_ex isQueueMessage (fst (sendMessage ?bad (demo_send_args (Some True))))"
    by blast
  from bad have "\<not> list_ex isQueueMessage (fst (sendMessage ?bad (demo_send_args (Some True)))) \<longrightarrow>
      snd (sendMessage ?bad (demo_send_args (Some True)))
        = ToolError ''SEND_FAILED'' (String_of (Error ''API error: invalid request''))"
    by (elim conjE)
  with nb have third: "snd (sendMessage ?bad (demo_send_args (Some True)))
        = ToolError ''SEND_FAILED'' ''Error: API error: invalid request''"
    by simp
  from first l second nb third show ?thesis by blast
qed

text \<open>
  Claim C2 as stated fails where the queue request is rejected too: the send error
  contains \<open>409 conflict\<close>, \<open>auto_queue\<close> is omitted, the queue request is made, and
  the result is \<open>SEND_FAILED\<close> with the queue request's error, not the queued message.
\<close>

theorem busy_send_fails_when_queue_rejects:
  "sublist ''409 conflict'' (String_of (Error ''API error: 409 conflict''))
   \<and> arg_auto_queue (demo_send_args None) = None
   \<and> list_ex isQueueMessage
       (fst (sendMessage (demo_send_env (Inl (Error ''API error: 409 conflict''))
                (Inl (Error ''API error: queue full''))) (demo_send_args None)))
   \<and> snd (sendMessage (demo_send_env (Inl (Error ''API error: 409 conflict''))
             (Inl (Error ''API error: queue full''))) (demo_send_args None))
       = ToolError ''SEND_FAILED'' ''Error: API error: queue full''"
proof -
  have "sublist ''409 conflict'' (String_of (Error ''API error: 409 conflict''))" by code_simp
  moreover have "arg_auto_queue (demo_send_args None) = None" by (simp add: demo_send_args_def)
  ultimately show ?thesis by (simp add: demo_send_run)
qed

end
